theory Spec2Isabelle
  imports Main "HOL-Library.Char_ord" "HOL-Library.List_Lexorder"
begin

section \<open>Go strings, runes and the library functions the formatter calls\<close>

text \<open>
  A Go \<^verbatim>\<open>string\<close> is a sequence of bytes: it is modelled as \<^typ>\<open>string\<close>, a list of
  8-bit \<^typ>\<open>char\<close>. A \<^verbatim>\<open>rune\<close> is the number of a code point. The functions of this
  section model the parts of Go's standard library (\<^verbatim>\<open>unicode/utf8\<close>, \<^verbatim>\<open>strconv\<close>,
  \<^verbatim>\<open>strings\<close>, \<^verbatim>\<open>fmt\<close>) and of logrus that \<^verbatim>\<open>formatter.go\<close> calls; they are not code
  of the repository.
\<close>

type_synonym rune = nat

definition ESC :: char where
  "ESC = CHR 0x1B"

definition dquote :: char where
  "dquote = CHR 0x22"

definition backslash :: char where
  "backslash = CHR 0x5C"

definition newline :: char where
  "newline = CHR 0x0A"

subsection \<open>strconv.Itoa and the verb \<^verbatim>\<open>%d\<close>\<close>

definition digit_char :: "nat \<Rightarrow> char" where
  "digit_char d = char_of (48 + d)"

fun utoa :: "nat \<Rightarrow> string" where
  "utoa n = (if n < 10 then [digit_char n] else utoa (n div 10) @ [digit_char (n mod 10)])"

declare utoa.simps [simp del]

definition Itoa :: "int \<Rightarrow> string" where
  "Itoa i = (if i < 0 then CHR ''-'' # utoa (nat (- i)) else utoa (nat i))"

subsection \<open>unicode/utf8: decoding, as \<^verbatim>\<open>range\<close> over a string and RuneCount do it\<close>

definition RuneError :: rune where
  "RuneError = 0xFFFD"

definition RuneSelf :: nat where
  "RuneSelf = 0x80"

text \<open>The table \<^verbatim>\<open>first\<close> of utf8.go: the length of the sequence a lead byte starts
  (0 for a byte that starts none), and the range accepted for the second byte.\<close>

definition first_size :: "nat \<Rightarrow> nat" where
  "first_size b =
     (if 0xC2 \<le> b \<and> b \<le> 0xDF then 2
      else if 0xE0 \<le> b \<and> b \<le> 0xEF then 3
      else if 0xF0 \<le> b \<and> b \<le> 0xF4 then 4
      else 0)"

definition accept_lo :: "nat \<Rightarrow> nat" where
  "accept_lo b = (if b = 0xE0 then 0xA0 else if b = 0xF0 then 0x90 else 0x80)"

definition accept_hi :: "nat \<Rightarrow> nat" where
  "accept_hi b = (if b = 0xED then 0x9F else if b = 0xF4 then 0x8F else 0xBF)"

text \<open>utf8.DecodeRuneInString: the rune at the head of the string and its width in
  bytes; an invalid or short sequence decodes to (RuneError, 1).\<close>

definition DecodeRuneInString :: "string \<Rightarrow> rune \<times> nat" where
  "DecodeRuneInString s =
     (case map of_char s of
        [] \<Rightarrow> (RuneError, 0)
      | s0 # t \<Rightarrow>
          if s0 < RuneSelf then (s0, 1)
          else if first_size s0 = 0 then (RuneError, 1)
          else if length s < first_size s0 then (RuneError, 1)
          else if t ! 0 < accept_lo s0 \<or> accept_hi s0 < t ! 0 then (RuneError, 1)
          else if first_size s0 \<le> 2 then ((s0 mod 32) * 64 + t ! 0 mod 64, 2)
          else if t ! 1 < 0x80 \<or> 0xBF < t ! 1 then (RuneError, 1)
          else if first_size s0 \<le> 3
            then ((s0 mod 16) * 4096 + (t ! 0 mod 64) * 64 + t ! 1 mod 64, 3)
          else if t ! 2 < 0x80 \<or> 0xBF < t ! 2 then (RuneError, 1)
          else ((s0 mod 8) * 262144 + (t ! 0 mod 64) * 4096 + (t ! 1 mod 64) * 64
                  + t ! 2 mod 64, 4))"

lemma DecodeRuneInString_width:
  "s \<noteq> [] \<Longrightarrow> 1 \<le> snd (DecodeRuneInString s)"
  by (cases s) (simp_all add: DecodeRuneInString_def Let_def)

text \<open>The runes that \<^verbatim>\<open>for _, ch := range text\<close> yields, in order.\<close>

function runes :: "string \<Rightarrow> rune list" where
  "runes s =
     (if s = [] then []
      else fst (DecodeRuneInString s) # runes (drop (snd (DecodeRuneInString s)) s))"
  by pat_completeness auto
termination
proof (relation "measure length")
  show "wf (measure length)" by simp
next
  fix s :: string
  assume "s \<noteq> []"
  then have "1 \<le> snd (DecodeRuneInString s)" by (rule DecodeRuneInString_width)
  with \<open>s \<noteq> []\<close> show "(drop (snd (DecodeRuneInString s)) s, s) \<in> measure length"
    by (cases s) auto
qed

declare runes.simps [simp del]

definition RuneCountInString :: "string \<Rightarrow> nat" where
  "RuneCountInString s = length (runes s)"

text \<open>utf8.AppendRune: the UTF-8 encoding of a rune.\<close>

definition EncodeRune :: "rune \<Rightarrow> string" where
  "EncodeRune r =
     (if r \<le> 0x7F then [char_of r]
      else if r \<le> 0x7FF then [char_of (0xC0 + r div 64), char_of (0x80 + r mod 64)]
      else if 0x10FFFF < r \<or> (0xD800 \<le> r \<and> r \<le> 0xDFFF) then
        [char_of (0xE0 + RuneError div 4096), char_of (0x80 + RuneError div 64 mod 64),
         char_of (0x80 + RuneError mod 64)]
      else if r \<le> 0xFFFF then
        [char_of (0xE0 + r div 4096), char_of (0x80 + r div 64 mod 64),
         char_of (0x80 + r mod 64)]
      else
        [char_of (0xF0 + r div 262144), char_of (0x80 + r div 4096 mod 64),
         char_of (0x80 + r div 64 mod 64), char_of (0x80 + r mod 64)])"

subsection \<open>What the Go runtime supplies to one call\<close>

text \<open>
  \<^item> \<open>GOOS\<close>: the constant \<^verbatim>\<open>runtime.GOOS\<close> of the build.
  \<^item> \<open>isPrint_tables\<close>: strconv.IsPrint on the runes above U+00FF, which Go decides by
    tables of the Unicode standard that are not reproduced here.
  \<^item> \<open>range_Data\<close>, \<open>range_data\<close>: the order in which the two \<^verbatim>\<open>range\<close> loops of Format
    (over \<^verbatim>\<open>entry.Data\<close>, then over the copy \<^verbatim>\<open>data\<close>) yield the keys. Go leaves the
    iteration order of a map unspecified; it yields every key once
    (\<open>is_range_order\<close> below).
\<close>

record go_runtime =
  GOOS :: string
  isPrint_tables :: "rune \<Rightarrow> bool"
  range_Data :: "string list"
  range_data :: "string list"

definition is_range_order :: "string list \<Rightarrow> (string \<rightharpoonup> 'v) \<Rightarrow> bool" where
  "is_range_order ks m = (distinct ks \<and> set ks = dom m)"

subsection \<open>strconv.Quote, the verb \<^verbatim>\<open>%q\<close>\<close>

definition IsPrint :: "go_runtime \<Rightarrow> rune \<Rightarrow> bool" where
  "IsPrint rt r =
     (if r \<le> 0xFF then
        (if 0x20 \<le> r \<and> r < 0x7F then True
         else if 0xA1 \<le> r then r \<noteq> 0xAD
         else False)
      else isPrint_tables rt r)"

definition lowerhex :: "nat \<Rightarrow> char" where
  "lowerhex d = ''0123456789abcdef'' ! (d mod 16)"

definition appendEscapedRune :: "go_runtime \<Rightarrow> rune \<Rightarrow> string" where
  "appendEscapedRune rt r =
     (if r = of_char dquote \<or> r = of_char backslash then [backslash, char_of r]
      else if IsPrint rt r then EncodeRune r
      else if r = 7 then [backslash, CHR ''a'']
      else if r = 8 then [backslash, CHR ''b'']
      else if r = 12 then [backslash, CHR ''f'']
      else if r = 10 then [backslash, CHR ''n'']
      else if r = 13 then [backslash, CHR ''r'']
      else if r = 9 then [backslash, CHR ''t'']
      else if r = 11 then [backslash, CHR ''v'']
      else if r < 0x20 \<or> r = 0x7F then
        [backslash, CHR ''x'', lowerhex (r div 16), lowerhex r]
      else if 0x10FFFF < r \<or> (0xD800 \<le> r \<and> r \<le> 0xDFFF) then
        [backslash, CHR ''u'', lowerhex (RuneError div 4096), lowerhex (RuneError div 256),
         lowerhex (RuneError div 16), lowerhex RuneError]
      else if r < 0x10000 then
        [backslash, CHR ''u'', lowerhex (r div 4096), lowerhex (r div 256),
         lowerhex (r div 16), lowerhex r]
      else
        [backslash, CHR ''U'', lowerhex (r div 268435456), lowerhex (r div 16777216),
         lowerhex (r div 1048576), lowerhex (r div 65536), lowerhex (r div 4096),
         lowerhex (r div 256), lowerhex (r div 16), lowerhex r])"

text \<open>The loop of strconv.appendQuotedWith: an invalid byte is written \<^verbatim>\<open>\xNN\<close>, any
  other rune as appendEscapedRune writes it.\<close>

function quote_body :: "go_runtime \<Rightarrow> string \<Rightarrow> string" where
  "quote_body rt s =
     (if s = [] then []
      else
        (if snd (DecodeRuneInString s) = 1 \<and> fst (DecodeRuneInString s) = RuneError
         then [backslash, CHR ''x'', lowerhex (of_char (hd s) div 16), lowerhex (of_char (hd s))]
         else appendEscapedRune rt (fst (DecodeRuneInString s)))
        @ quote_body rt (drop (snd (DecodeRuneInString s)) s))"
  by pat_completeness auto
termination
proof (relation "measure (\<lambda>(rt, s). length s)")
  show "wf (measure (\<lambda>(rt, s). length s))" by simp
next
  fix rt :: go_runtime and s :: string
  assume "s \<noteq> []"
  then have "1 \<le> snd (DecodeRuneInString s)" by (rule DecodeRuneInString_width)
  with \<open>s \<noteq> []\<close>
  show "((rt, drop (snd (DecodeRuneInString s)) s), (rt, s)) \<in> measure (\<lambda>(rt, s). length s)"
    by (cases s) auto
qed

declare quote_body.simps [simp del]

definition Quote :: "go_runtime \<Rightarrow> string \<Rightarrow> string" where
  "Quote rt s = dquote # quote_body rt s @ [dquote]"

subsection \<open>fmt: padding, and strings: ToUpper, TrimSuffix\<close>

text \<open>The verb \<^verbatim>\<open>%-Ns\<close>: the text, then spaces up to a width of N runes (fmt.padString
  counts runes, not bytes).\<close>

definition pad_right :: "nat \<Rightarrow> string \<Rightarrow> string" where
  "pad_right w s = s @ replicate (w - RuneCountInString s) CHR '' ''"

text \<open>strings.ToUpper on ASCII text, the only text Format gives it (the names of the
  levels): the letters a to z are shifted, every other byte is kept. The Unicode case
  mapping Go applies to text that is not ASCII is not modelled.\<close>

definition upper_byte :: "char \<Rightarrow> char" where
  "upper_byte c =
     (if of_char CHR ''a'' \<le> (of_char c :: nat) \<and> (of_char c :: nat) \<le> of_char CHR ''z''
      then char_of (of_char c - (32::nat)) else c)"

definition ToUpper :: "string \<Rightarrow> string" where
  "ToUpper s = map upper_byte s"

definition TrimSuffix :: "string \<Rightarrow> string \<Rightarrow> string" where
  "TrimSuffix s suffix =
     (if length suffix \<le> length s \<and> drop (length s - length suffix) s = suffix
      then take (length s - length suffix) s else s)"

section \<open>The data of logrus that the formatter reads\<close>

text \<open>logrus.Level with the seven levels of logrus.AllLevels, and Level.String.\<close>

datatype Level =
  PanicLevel | FatalLevel | ErrorLevel | WarnLevel | InfoLevel | DebugLevel | TraceLevel

definition AllLevels :: "Level list" where
  "AllLevels =
     [PanicLevel, FatalLevel, ErrorLevel, WarnLevel, InfoLevel, DebugLevel, TraceLevel]"

fun Level_String :: "Level \<Rightarrow> string" where
  "Level_String TraceLevel = ''trace''"
| "Level_String DebugLevel = ''debug''"
| "Level_String InfoLevel = ''info''"
| "Level_String WarnLevel = ''warning''"
| "Level_String ErrorLevel = ''error''"
| "Level_String FatalLevel = ''fatal''"
| "Level_String PanicLevel = ''panic''"

text \<open>A field value (\<^verbatim>\<open>interface{}\<close>): a string, or a value of another type. \<open>VOther\<close>
  stands for a value of any further type and carries the text fmt.Sprint gives for it;
  \<open>VNil\<close> is the nil interface, which a map yields for a key it does not hold.\<close>

datatype val = VString string | VInt int | VBool bool | VNil | VOther string

fun Sprint :: "val \<Rightarrow> string" where
  "Sprint (VString s) = s"
| "Sprint (VInt i) = Itoa i"
| "Sprint (VBool b) = (if b then ''true'' else ''false'')"
| "Sprint VNil = ''<nil>''"
| "Sprint (VOther s) = s"

text \<open>An io.Writer: an \<^verbatim>\<open>*os.File\<close>, with what isatty.IsTerminal answers for its
  descriptor, or a writer of another type.\<close>

datatype Writer = OsFile bool | OtherWriter

record Logger =
  Out :: Writer
  ReportCaller :: bool

text \<open>runtime.Frame, the fields the formatter reads.\<close>

record Frame =
  Function :: string
  File :: string
  Line :: int

text \<open>
  logrus.Entry. \<open>Logger\<close> and \<open>Caller\<close> are pointers that may be nil. \<open>Time\<close> is the
  instant, given by its method Format (layout to text). \<open>Buffer\<close> is the optional
  \<^verbatim>\<open>*bytes.Buffer\<close>, given by its contents.
\<close>

record Entry =
  Logger :: "Logger option"
  Data :: "string \<rightharpoonup> val"
  Time :: "string \<Rightarrow> string"
  Level :: Level
  Caller :: "Frame option"
  Message :: string
  Buffer :: "string option"

definition HasCaller :: "Entry \<Rightarrow> bool" where
  "HasCaller entry =
     (case Logger entry of
        None \<Rightarrow> False
      | Some l \<Rightarrow> ReportCaller l \<and> Caller entry \<noteq> None)"

section \<open>formatter.go\<close>

definition defaultTimestampFormat :: string where
  "defaultTimestampFormat = ''2006-01-02 15:04:05 MST''"

definition faint :: int where "faint = 2"
definition red :: int where "red = 31"
definition yellow :: int where "yellow = 33"
definition blue :: int where "blue = 36"
definition gray :: int where "gray = 37"

text \<open>
  The struct TextFormatter. \<open>terminalInitOnce\<close> is the sync.Once, given by whether its
  Do has run; \<open>isTerminal\<close> and \<open>levelTextMaxLength\<close> are the two unexported fields that
  init fills. SortingFunc receives the slice of keys and reorders it in place: it is
  given by the contents of the slice after the call.
\<close>

record TextFormatter =
  TimestampFormat :: string
  DisableTimestamp :: bool
  ForceColors :: bool
  DisableColors :: bool
  ForceQuote :: bool
  DisableQuote :: bool
  TruncateLevelText :: bool
  PadLevelText :: bool
  DisableSorting :: bool
  SortingFunc :: "(string list \<Rightarrow> string list) option"
  CallerPrettyfier :: "(Frame \<Rightarrow> string \<times> string) option"
  terminalInitOnce :: bool
  isTerminal :: bool
  levelTextMaxLength :: int

text \<open>func isTerminal(w io.Writer) bool, lines 54 to 60.\<close>

fun isTerminalWriter :: "Writer \<Rightarrow> bool" where
  "isTerminalWriter (OsFile tty) = tty"
| "isTerminalWriter OtherWriter = False"

text \<open>init, lines 62 to 72: the probe of the terminal, skipped when the entry has no
  logger, and the loop over the levels that raises levelTextMaxLength.\<close>

definition init_level :: "Level \<Rightarrow> TextFormatter \<Rightarrow> TextFormatter" where
  "init_level level f =
     (let levelTextLength = int (RuneCountInString (Level_String level))
      in if levelTextLength > levelTextMaxLength f
         then f\<lparr>levelTextMaxLength := levelTextLength\<rparr> else f)"

definition init :: "TextFormatter \<Rightarrow> Entry \<Rightarrow> TextFormatter" where
  "init f entry =
     fold init_level AllLevels
       (case Logger entry of
          Some l \<Rightarrow> f\<lparr>isTerminal := isTerminalWriter (Out l)\<rparr>
        | None \<Rightarrow> f)"

text \<open>\<^verbatim>\<open>f.terminalInitOnce.Do(func() { f.init(entry) })\<close>, line 144.\<close>

definition terminalInitOnce_Do :: "TextFormatter \<Rightarrow> Entry \<Rightarrow> TextFormatter" where
  "terminalInitOnce_Do f entry =
     (if terminalInitOnce f then f else (init f entry)\<lparr>terminalInitOnce := True\<rparr>)"

text \<open>isColored, lines 74 to 78.\<close>

definition isColored :: "go_runtime \<Rightarrow> TextFormatter \<Rightarrow> bool" where
  "isColored rt f =
     ((ForceColors f \<or> (isTerminal f \<and> GOOS rt \<noteq> ''windows'')) \<and> \<not> DisableColors f)"

text \<open>colorPrint, lines 80 to 85.\<close>

definition colorPrint :: "string \<Rightarrow> int \<Rightarrow> string" where
  "colorPrint text color =
     (if color > 0
      then [ESC, CHR ''[''] @ Itoa color @ ''m'' @ text @ [ESC, CHR ''[''] @ ''0m''
      else text)"

text \<open>needsQuoting, lines 87 to 103: the test of one rune, and the loop that returns
  at the first rune outside the set.\<close>

definition safe_rune :: "rune \<Rightarrow> bool" where
  "safe_rune ch =
     ((ch \<ge> of_char CHR ''a'' \<and> ch \<le> of_char CHR ''z'') \<or>
      (ch \<ge> of_char CHR ''A'' \<and> ch \<le> of_char CHR ''Z'') \<or>
      (ch \<ge> of_char CHR ''0'' \<and> ch \<le> of_char CHR ''9'') \<or>
      ch = of_char CHR ''-'' \<or> ch = of_char CHR ''.'' \<or> ch = of_char CHR ''_'' \<or>
      ch = of_char CHR ''/'' \<or> ch = of_char CHR ''@'' \<or> ch = of_char CHR ''^'' \<or>
      ch = of_char CHR ''+'')"

fun needsQuoting_loop :: "rune list \<Rightarrow> bool" where
  "needsQuoting_loop [] = False"
| "needsQuoting_loop (ch # rest) = (if \<not> safe_rune ch then True else needsQuoting_loop rest)"

definition needsQuoting :: "TextFormatter \<Rightarrow> string \<Rightarrow> bool" where
  "needsQuoting f text =
     (if ForceQuote f then True
      else if DisableQuote f then False
      else needsQuoting_loop (runes text))"

text \<open>appendValue, lines 105 to 116; the buffer is passed and returned.\<close>

definition appendValue :: "go_runtime \<Rightarrow> TextFormatter \<Rightarrow> string \<Rightarrow> val \<Rightarrow> string" where
  "appendValue rt f b v =
     (let stringVal = (case v of VString s \<Rightarrow> s | _ \<Rightarrow> Sprint v)
      in if \<not> needsQuoting f stringVal then b @ stringVal
         else b @ Quote rt stringVal)"

subsection \<open>Format, lines 118 to 224\<close>

text \<open>The only run-time failure Format can raise: the slice expression of line 175
  panics when the text has fewer than four bytes.\<close>

datatype error = SliceBoundsOutOfRange

text \<open>Lines 119 to 122: the copy of \<^verbatim>\<open>entry.Data\<close> into the fresh map \<^verbatim>\<open>data\<close>, key by
  key in the order of the first range loop.\<close>

definition copy_Data :: "go_runtime \<Rightarrow> Entry \<Rightarrow> (string \<rightharpoonup> val)" where
  "copy_Data rt entry = fold (\<lambda>k data. data(k := Data entry k)) (range_Data rt) Map.empty"

text \<open>Lines 124 to 135: the keys in the order of the second range loop, then
  sort.Strings (the order of Go's strings, byte by byte) or the custom function, unless
  sorting is disabled.\<close>

definition sorted_keys :: "go_runtime \<Rightarrow> TextFormatter \<Rightarrow> string list" where
  "sorted_keys rt f =
     (let keys = range_data rt
      in if \<not> DisableSorting f then
           (case SortingFunc f of None \<Rightarrow> sort keys | Some g \<Rightarrow> g keys)
         else keys)"

text \<open>Lines 157 to 166: the switch on the level.\<close>

fun levelColor_of :: "Level \<Rightarrow> int" where
  "levelColor_of DebugLevel = gray"
| "levelColor_of TraceLevel = gray"
| "levelColor_of WarnLevel = yellow"
| "levelColor_of ErrorLevel = red"
| "levelColor_of FatalLevel = red"
| "levelColor_of PanicLevel = red"
| "levelColor_of InfoLevel = blue"

text \<open>Lines 172 to 180. The slice \<^verbatim>\<open>levelText[0:4]\<close> panics on a shorter text. The
  format string of line 178 is \<^verbatim>\<open>%-\<close>, the decimal text of levelTextMaxLength, \<^verbatim>\<open>s\<close>: fmt
  reads a minus sign in front of the digits as a second flag, so that the width is the
  absolute value.\<close>

definition render_levelText :: "TextFormatter \<Rightarrow> Level \<Rightarrow> error + string" where
  "render_levelText f level =
     (let levelText = ToUpper (Level_String level)
      in if TruncateLevelText f \<and> \<not> PadLevelText f \<and> length levelText < 4
         then Inl SliceBoundsOutOfRange
         else
           let levelText = (if TruncateLevelText f \<and> \<not> PadLevelText f
                            then take 4 levelText else levelText)
           in Inr (if PadLevelText f
                   then pad_right (nat \<bar>levelTextMaxLength f\<bar>) levelText
                   else levelText))"

text \<open>Lines 184 to 204. HasCaller is true only with a caller that is not nil.\<close>

definition render_caller :: "TextFormatter \<Rightarrow> Entry \<Rightarrow> string" where
  "render_caller f entry =
     (case (HasCaller entry, Caller entry) of
        (True, Some c) \<Rightarrow>
          (let (funcVal, fileVal) =
                 (case CallerPrettyfier f of
                    None \<Rightarrow> (Function c @ '':'' @ Itoa (Line c), [])
                  | Some g \<Rightarrow> g c);
               caller = (if fileVal = [] then funcVal
                         else if funcVal = [] then fileVal
                         else fileVal @ '' '' @ funcVal)
           in '' ('' @ caller @ '')'')
      | _ \<Rightarrow> [])"

text \<open>Lines 206 to 215: the two templates, written out. Each is the separator between
  the verbs \<^verbatim>\<open>%s\<close>, then \<^verbatim>\<open>%-44s\<close> and one space.\<close>

definition write_head ::
  "TextFormatter \<Rightarrow> string \<Rightarrow> string \<Rightarrow> int \<Rightarrow> string \<Rightarrow> string \<Rightarrow> string \<Rightarrow> string" where
  "write_head f separator timestamp levelColor levelText caller message =
     (if DisableTimestamp f then
        colorPrint (levelText @ caller) levelColor @ separator
          @ pad_right 44 message @ '' ''
      else
        timestamp @ separator @ colorPrint (levelText @ caller) levelColor @ separator
          @ pad_right 44 message @ '' '')"

text \<open>Lines 216 to 220: one pass of the loop over the keys.\<close>

definition write_field ::
  "go_runtime \<Rightarrow> TextFormatter \<Rightarrow> (string \<rightharpoonup> val) \<Rightarrow> int \<Rightarrow> string \<Rightarrow> string \<Rightarrow> string" where
  "write_field rt f data levelColor k b =
     (let v = (case data k of Some v \<Rightarrow> v | None \<Rightarrow> VNil)
      in appendValue rt f (b @ '' '' @ colorPrint k levelColor @ ''='') v)"

text \<open>
  Format. It returns the bytes of the buffer, and, as Go does by the pointers \<^verbatim>\<open>f\<close> and
  \<^verbatim>\<open>entry\<close>, the formatter and the entry as the call leaves them. The second result of
  the Go function is always nil and is left out; \<open>Inl\<close> is a panic.
\<close>

definition Format ::
  "go_runtime \<Rightarrow> TextFormatter \<Rightarrow> Entry \<Rightarrow> error + (string \<times> TextFormatter \<times> Entry)" where
  "Format rt f0 entry =
     (let data = copy_Data rt entry;
          keys = sorted_keys rt f0;
          b = (case Buffer entry of Some contents \<Rightarrow> contents | None \<Rightarrow> []);
          f = terminalInitOnce_Do f0 entry;
          timestampFormat =
            (if TimestampFormat f = [] then defaultTimestampFormat else TimestampFormat f);
          timestamp = Time entry timestampFormat;
          levelColor = (if isColored rt f then levelColor_of (Level entry) else - 1);
          separator = (if isColored rt f then '' '' else '' :: '');
          timestamp = (if isColored rt f then colorPrint timestamp faint else timestamp)
      in case render_levelText f (Level entry) of
           Inl e \<Rightarrow> Inl e
         | Inr levelText \<Rightarrow>
             let message = TrimSuffix (Message entry) [newline];
                 caller = render_caller f entry;
                 b = b @ write_head f separator timestamp levelColor levelText caller message;
                 b = fold (write_field rt f data levelColor) keys b;
                 b = b @ [newline]
             in Inr (b, f,
                     entry\<lparr>Message := message,
                           Buffer := map_option (\<lambda>_. b) (Buffer entry)\<rparr>))"

section \<open>Notions used in the statements\<close>

text \<open>
  The two unexported fields are written by init alone, so a formatter is either unused
  (the Once has not run, both fields hold Go's zero values) or initialised (the Once
  has run, levelTextMaxLength is the width of the longest level name, 7).
\<close>

definition cache_ok :: "TextFormatter \<Rightarrow> bool" where
  "cache_ok f =
     (if terminalInitOnce f then levelTextMaxLength f = 7
      else levelTextMaxLength f = 0 \<and> \<not> isTerminal f)"

text \<open>Names for the parts of the line, as Format computes them: the contents the
  buffer had, the text of the timestamp, the colour of the level (or -1), the separator,
  and the text of all the fields.\<close>

definition buffer_contents :: "Entry \<Rightarrow> string" where
  "buffer_contents entry = (case Buffer entry of Some contents \<Rightarrow> contents | None \<Rightarrow> [])"

definition timestamp_text :: "TextFormatter \<Rightarrow> Entry \<Rightarrow> string" where
  "timestamp_text f entry =
     Time entry (if TimestampFormat f = [] then defaultTimestampFormat else TimestampFormat f)"

definition levelColor_for :: "go_runtime \<Rightarrow> TextFormatter \<Rightarrow> Entry \<Rightarrow> int" where
  "levelColor_for rt f entry = (if isColored rt f then levelColor_of (Level entry) else - 1)"

definition separator_for :: "go_runtime \<Rightarrow> TextFormatter \<Rightarrow> string" where
  "separator_for rt f = (if isColored rt f then '' '' else '' :: '')"

definition fields_text ::
  "go_runtime \<Rightarrow> TextFormatter \<Rightarrow> (string \<rightharpoonup> val) \<Rightarrow> int \<Rightarrow> string list \<Rightarrow> string" where
  "fields_text rt f data levelColor keys =
     concat (map (\<lambda>k. write_field rt f data levelColor k []) keys)"

text \<open>The upper-case name of a level, and the level text as lines 172 to 180 leave it
  when the slice is in range.\<close>

definition upper_name :: "Level \<Rightarrow> string" where
  "upper_name level = ToUpper (Level_String level)"

definition levelText_of :: "TextFormatter \<Rightarrow> Level \<Rightarrow> string" where
  "levelText_of f level =
     (case render_levelText f level of Inr levelText \<Rightarrow> levelText | Inl e \<Rightarrow> [])"

text \<open>The formatter after a sequence of calls of Format, each with what the runtime
  supplies to it and its entry.\<close>

fun Format_calls :: "TextFormatter \<Rightarrow> (go_runtime \<times> Entry) list \<Rightarrow> TextFormatter" where
  "Format_calls f [] = f"
| "Format_calls f ((rt, entry) # calls) =
     (case Format rt f entry of
        Inr (bytes, f', entry') \<Rightarrow> Format_calls f' calls
      | Inl e \<Rightarrow> f)"

text \<open>The combination of the two texts of the caller, in the words of the
  specification: the function text when the file text is empty, the file text when
  the function text is empty, otherwise the file text, a space and the function text.\<close>

definition combine_caller :: "string \<Rightarrow> string \<Rightarrow> string" where
  "combine_caller functionText fileText =
     (if fileText = [] then functionText
      else if functionText = [] then fileText
      else fileText @ '' '' @ functionText)"

text \<open>The three components of a result of Format.\<close>

definition bytes_of :: "error + (string \<times> TextFormatter \<times> Entry) \<Rightarrow> string" where
  "bytes_of r = (case r of Inr (bytes, f, entry) \<Rightarrow> bytes | Inl e \<Rightarrow> [])"

definition entry_of :: "Entry \<Rightarrow> error + (string \<times> TextFormatter \<times> Entry) \<Rightarrow> Entry" where
  "entry_of entry0 r = (case r of Inr (bytes, f, entry) \<Rightarrow> entry | Inl e \<Rightarrow> entry0)"

definition formatter_of ::
  "TextFormatter \<Rightarrow> error + (string \<times> TextFormatter \<times> Entry) \<Rightarrow> TextFormatter" where
  "formatter_of f0 r = (case r of Inr (bytes, f, entry) \<Rightarrow> f | Inl e \<Rightarrow> f0)"

text \<open>Sample inputs, for closed instances of the theorems.\<close>

definition sample_runtime :: go_runtime where
  "sample_runtime =
     \<lparr>GOOS = ''linux'', isPrint_tables = (\<lambda>r. False),
      range_Data = [''b'', ''a''], range_data = [''b'', ''a'']\<rparr>"

definition sample_formatter :: TextFormatter where
  "sample_formatter =
     \<lparr>TimestampFormat = [], DisableTimestamp = True, ForceColors = False,
      DisableColors = True, ForceQuote = False, DisableQuote = False,
      TruncateLevelText = False, PadLevelText = False, DisableSorting = False,
      SortingFunc = None, CallerPrettyfier = None,
      terminalInitOnce = False, isTerminal = False, levelTextMaxLength = 0\<rparr>"

definition sample_entry :: Entry where
  "sample_entry =
     \<lparr>Logger = None,
      Data = [''a'' \<mapsto> VString ''1'', ''b'' \<mapsto> VString ''needs space''],
      Time = (\<lambda>layout. ''2024-01-02 03:04:05 UTC''), Level = InfoLevel, Caller = None,
      Message = ''hello'', Buffer = None\<rparr>"

definition sample_logger :: Logger where
  "sample_logger = \<lparr>Out = OsFile True, ReportCaller = True\<rparr>"

definition sample_frame :: Frame where
  "sample_frame = \<lparr>Function = ''main.run'', File = ''main.go'', Line = 42\<rparr>"

section \<open>Properties\<close>

subsection \<open>The shape of the line\<close>

lemma level_name_length: "4 \<le> length (ToUpper (Level_String level))"
  by (cases level) (simp_all add: ToUpper_def)

lemma render_levelText_Inr:
  "render_levelText f level =
     Inr (if PadLevelText f
          then pad_right (nat \<bar>levelTextMaxLength f\<bar>) (ToUpper (Level_String level))
          else if TruncateLevelText f then take 4 (ToUpper (Level_String level))
          else ToUpper (Level_String level))"
  using level_name_length [of level] by (simp add: render_levelText_def Let_def)

lemma appendValue_append: "appendValue rt f b v = b @ appendValue rt f [] v"
  by (simp add: appendValue_def Let_def)

lemma write_field_append:
  "write_field rt f data levelColor k b = b @ write_field rt f data levelColor k []"
  unfolding write_field_def Let_def
  by (subst appendValue_append) (simp add: appendValue_append [of rt f "_ @ _"])

lemma fold_write_field:
  "fold (write_field rt f data levelColor) keys b =
     b @ concat (map (\<lambda>k. write_field rt f data levelColor k []) keys)"
proof (induction keys arbitrary: b)
  case Nil
  show ?case by simp
next
  case (Cons k keys)
  have "fold (write_field rt f data levelColor) (k # keys) b =
          fold (write_field rt f data levelColor) keys (write_field rt f data levelColor k b)"
    by simp
  also have "\<dots> =
          fold (write_field rt f data levelColor) keys (b @ write_field rt f data levelColor k [])"
    by (subst write_field_append) (rule refl)
  also have "\<dots> = (b @ write_field rt f data levelColor k [])
          @ concat (map (\<lambda>k. write_field rt f data levelColor k []) keys)"
    by (rule Cons.IH)
  finally show ?case by simp
qed

lemma rune_counts:
  "map (\<lambda>l. RuneCountInString (Level_String l)) AllLevels = [5, 5, 5, 7, 4, 5, 5]"
  by code_simp

lemma init_levelTextMaxLength:
  "levelTextMaxLength (init f entry) = max (levelTextMaxLength f) 7"
  using rune_counts
  by (simp add: init_def AllLevels_def init_level_def Let_def split: option.split)
lemma levelText_of_eq:
  "levelText_of f level =
     (if PadLevelText f
      then pad_right (nat \<bar>levelTextMaxLength f\<bar>) (upper_name level)
      else if TruncateLevelText f then take 4 (upper_name level)
      else upper_name level)"
  by (simp add: levelText_of_def render_levelText_Inr upper_name_def)

lemma render_levelText_levelText_of:
  "render_levelText f level = Inr (levelText_of f level)"
  by (simp add: levelText_of_def render_levelText_Inr)

lemma Format_eq:
  "Format rt f0 entry =
     Inr (buffer_contents entry
            @ write_head (terminalInitOnce_Do f0 entry)
                (separator_for rt (terminalInitOnce_Do f0 entry))
                (if isColored rt (terminalInitOnce_Do f0 entry)
                 then colorPrint (timestamp_text (terminalInitOnce_Do f0 entry) entry) faint
                 else timestamp_text (terminalInitOnce_Do f0 entry) entry)
                (levelColor_for rt (terminalInitOnce_Do f0 entry) entry)
                (levelText_of (terminalInitOnce_Do f0 entry) (Level entry))
                (render_caller (terminalInitOnce_Do f0 entry) entry)
                (TrimSuffix (Message entry) [newline])
            @ fields_text rt (terminalInitOnce_Do f0 entry) (copy_Data rt entry)
                (levelColor_for rt (terminalInitOnce_Do f0 entry) entry) (sorted_keys rt f0)
            @ [newline],
          terminalInitOnce_Do f0 entry,
          entry\<lparr>Message := TrimSuffix (Message entry) [newline],
                Buffer := map_option (\<lambda>_.
                  buffer_contents entry
                    @ write_head (terminalInitOnce_Do f0 entry)
                        (separator_for rt (terminalInitOnce_Do f0 entry))
                        (if isColored rt (terminalInitOnce_Do f0 entry)
                         then colorPrint (timestamp_text (terminalInitOnce_Do f0 entry) entry) faint
                         else timestamp_text (terminalInitOnce_Do f0 entry) entry)
                        (levelColor_for rt (terminalInitOnce_Do f0 entry) entry)
                        (levelText_of (terminalInitOnce_Do f0 entry) (Level entry))
                        (render_caller (terminalInitOnce_Do f0 entry) entry)
                        (TrimSuffix (Message entry) [newline])
                    @ fields_text rt (terminalInitOnce_Do f0 entry) (copy_Data rt entry)
                        (levelColor_for rt (terminalInitOnce_Do f0 entry) entry)
                        (sorted_keys rt f0)
                    @ [newline]) (Buffer entry)\<rparr>)"
  by (simp add: Format_def Let_def render_levelText_Inr fold_write_field buffer_contents_def
      timestamp_text_def levelColor_for_def separator_for_def fields_text_def
      levelText_of_eq upper_name_def)

subsection \<open>Totality\<close>

text \<open>
  C9. For every record with one of the seven levels and every configuration, Format
  returns a result and never panics. The one expression that could panic is the slice
  \<^verbatim>\<open>levelText[0:4]\<close> of line 175: it is in range, since the upper-case name of every level
  has at least four bytes, so that render_levelText never yields the error.
\<close>

theorem Format_total:
  "(\<exists>bytes f' entry'. Format rt f entry = Inr (bytes, f', entry')) \<and>
   (\<exists>levelText. render_levelText f level = Inr levelText) \<and>
   4 \<le> length (ToUpper (Level_String level))"
proof -
  have "\<exists>bytes f' entry'. Format rt f entry = Inr (bytes, f', entry')"
    by (simp add: Format_eq)
  moreover have "\<exists>levelText. render_levelText f level = Inr levelText"
    by (simp add: render_levelText_Inr)
  ultimately show ?thesis
    using level_name_length [of level] by simp
qed
subsection \<open>Runes of ASCII text\<close>

lemma DecodeRuneInString_ascii:
  "(of_char c :: nat) < 128 \<Longrightarrow> DecodeRuneInString (c # s) = (of_char c, 1)"
  by (simp add: DecodeRuneInString_def RuneSelf_def)

lemma runes_ascii:
  "\<forall>c\<in>set s. (of_char c :: nat) < 128 \<Longrightarrow> runes s = map of_char s"
proof (induction s)
  case Nil
  show ?case by (simp add: runes.simps [of "[]"])
next
  case (Cons c s)
  then show ?case
    by (simp add: runes.simps [of "c # s"] DecodeRuneInString_ascii)
qed

lemma RuneCountInString_ascii:
  "\<forall>c\<in>set s. (of_char c :: nat) < 128 \<Longrightarrow> RuneCountInString s = length s"
  by (simp add: RuneCountInString_def runes_ascii)

lemma level_name_ascii: "\<forall>c\<in>set (ToUpper (Level_String level)). (of_char c :: nat) < 128"
  by (cases level) (simp_all add: ToUpper_def upper_byte_def)

lemma level_name_length_le: "length (ToUpper (Level_String level)) \<le> 7"
  by (cases level) (simp_all add: ToUpper_def)

subsection \<open>The one-time initialisation\<close>

lemma init_eq:
  "init f entry =
     f\<lparr>isTerminal :=
         (case Logger entry of Some l \<Rightarrow> isTerminalWriter (Out l) | None \<Rightarrow> isTerminal f),
       levelTextMaxLength := max (levelTextMaxLength f) 7\<rparr>"
  using rune_counts
  by (simp add: init_def AllLevels_def init_level_def Let_def split: option.split)

lemma terminalInitOnce_Do_eq:
  "terminalInitOnce_Do f0 entry =
     (if terminalInitOnce f0 then f0
      else f0\<lparr>terminalInitOnce := True,
              isTerminal :=
                (case Logger entry of Some l \<Rightarrow> isTerminalWriter (Out l)
                 | None \<Rightarrow> isTerminal f0),
              levelTextMaxLength := max (levelTextMaxLength f0) 7\<rparr>)"
  by (simp add: terminalInitOnce_Do_def init_eq)

lemma terminalInitOnce_Do_config:
  "TimestampFormat (terminalInitOnce_Do f0 entry) = TimestampFormat f0"
  "DisableTimestamp (terminalInitOnce_Do f0 entry) = DisableTimestamp f0"
  "ForceColors (terminalInitOnce_Do f0 entry) = ForceColors f0"
  "DisableColors (terminalInitOnce_Do f0 entry) = DisableColors f0"
  "ForceQuote (terminalInitOnce_Do f0 entry) = ForceQuote f0"
  "DisableQuote (terminalInitOnce_Do f0 entry) = DisableQuote f0"
  "TruncateLevelText (terminalInitOnce_Do f0 entry) = TruncateLevelText f0"
  "PadLevelText (terminalInitOnce_Do f0 entry) = PadLevelText f0"
  "DisableSorting (terminalInitOnce_Do f0 entry) = DisableSorting f0"
  "SortingFunc (terminalInitOnce_Do f0 entry) = SortingFunc f0"
  "CallerPrettyfier (terminalInitOnce_Do f0 entry) = CallerPrettyfier f0"
  "terminalInitOnce (terminalInitOnce_Do f0 entry) = True"
  by (simp_all add: terminalInitOnce_Do_eq)

lemma terminalInitOnce_Do_cache:
  "cache_ok f0 \<Longrightarrow> levelTextMaxLength (terminalInitOnce_Do f0 entry) = 7"
  by (simp add: cache_ok_def terminalInitOnce_Do_eq split: if_splits)

lemma cache_ok_terminalInitOnce_Do:
  "cache_ok f0 \<Longrightarrow> cache_ok (terminalInitOnce_Do f0 entry)"
  by (simp add: cache_ok_def terminalInitOnce_Do_eq split: if_splits)
subsection \<open>The level text\<close>

lemma pad_level_name:
  "pad_right 7 (upper_name level) =
     upper_name level @ replicate (7 - length (upper_name level)) CHR '' ''"
  by (simp add: pad_right_def RuneCountInString_ascii level_name_ascii upper_name_def)

lemma max_level_width:
  "Max (set (map (\<lambda>l. RuneCountInString (Level_String l)) AllLevels)) = 7"
  by (simp add: rune_counts)

lemma upper_names:
  "map upper_name AllLevels =
     [''PANIC'', ''FATAL'', ''ERROR'', ''WARNING'', ''INFO'', ''DEBUG'', ''TRACE'']"
  by (simp add: AllLevels_def upper_name_def ToUpper_def upper_byte_def char_of_def bit_0)

lemma levelText_of_cache_ok:
  assumes "cache_ok f0"
  shows "levelText_of (terminalInitOnce_Do f0 entry) level =
     (if PadLevelText f0
      then upper_name level @ replicate (7 - length (upper_name level)) CHR '' ''
      else if TruncateLevelText f0 then take 4 (upper_name level)
      else upper_name level)"
  by (simp add: levelText_of_eq terminalInitOnce_Do_cache [OF assms]
      terminalInitOnce_Do_config pad_level_name)

text \<open>
  C7. For every level, the level text is the upper-case form of the canonical name.
  With TruncateLevelText and without PadLevelText it is the first 4 bytes of it. With
  PadLevelText it is that name followed by spaces up to the width levelTextMaxLength,
  which after the one-time initialisation is 7, the largest rune count of a level
  name; with both flags the text is padded and not cut. The text is the level-text
  argument of the head of the line that Format writes.
\<close>

theorem levelText_rendering:
  assumes "cache_ok f0"
  shows
   "render_levelText (terminalInitOnce_Do f0 entry) (Level entry) =
      Inr (if PadLevelText f0
           then upper_name (Level entry)
                  @ replicate (7 - length (upper_name (Level entry))) CHR '' ''
           else if TruncateLevelText f0 then take 4 (upper_name (Level entry))
           else upper_name (Level entry)) \<and>
    upper_name (Level entry) = ToUpper (Level_String (Level entry)) \<and>
    map upper_name AllLevels =
      [''PANIC'', ''FATAL'', ''ERROR'', ''WARNING'', ''INFO'', ''DEBUG'', ''TRACE''] \<and>
    levelTextMaxLength (terminalInitOnce_Do f0 entry) = 7 \<and>
    int (Max (set (map (\<lambda>l. RuneCountInString (Level_String l)) AllLevels))) = 7 \<and>
    (PadLevelText f0 \<longrightarrow>
       int (RuneCountInString (levelText_of (terminalInitOnce_Do f0 entry) (Level entry)))
         = levelTextMaxLength (terminalInitOnce_Do f0 entry) \<and>
       length (levelText_of (terminalInitOnce_Do f0 entry) (Level entry)) = 7 \<and>
       take (length (upper_name (Level entry)))
         (levelText_of (terminalInitOnce_Do f0 entry) (Level entry)) = upper_name (Level entry)) \<and>
    (TruncateLevelText f0 \<and> \<not> PadLevelText f0 \<longrightarrow>
       length (levelText_of (terminalInitOnce_Do f0 entry) (Level entry)) = 4) \<and>
    (\<exists>bytes entry' separator timestamp levelColor fields.
       Format rt f0 entry = Inr (bytes, terminalInitOnce_Do f0 entry, entry') \<and>
       bytes = buffer_contents entry
         @ write_head (terminalInitOnce_Do f0 entry) separator timestamp levelColor
             (levelText_of (terminalInitOnce_Do f0 entry) (Level entry))
             (render_caller (terminalInitOnce_Do f0 entry) entry)
             (TrimSuffix (Message entry) [newline])
         @ fields @ [newline])"
proof -
  let ?f = "terminalInitOnce_Do f0 entry"
  let ?U = "upper_name (Level entry)"
  let ?T = "levelText_of ?f (Level entry)"
  note T = levelText_of_cache_ok [OF assms, of entry "Level entry"]
  have w: "levelTextMaxLength ?f = 7"
    using assms by (rule terminalInitOnce_Do_cache)
  have r: "render_levelText ?f (Level entry) =
      Inr (if PadLevelText f0 then ?U @ replicate (7 - length ?U) CHR '' ''
           else if TruncateLevelText f0 then take 4 ?U else ?U)"
    by (simp only: render_levelText_levelText_of T)
  have len: "length ?U \<le> 7" "4 \<le> length ?U"
    unfolding upper_name_def by (rule level_name_length_le, rule level_name_length)
  have ascii: "\<forall>c\<in>set ?T. (of_char c :: nat) < 128"
    using level_name_ascii [of "Level entry"]
    by (auto simp add: T upper_name_def dest: in_set_takeD)
  have rc: "RuneCountInString ?T = length ?T"
    using ascii by (rule RuneCountInString_ascii)
  have p: "PadLevelText f0 \<longrightarrow>
       int (RuneCountInString ?T) = levelTextMaxLength ?f \<and> length ?T = 7 \<and>
       take (length ?U) ?T = ?U"
    using len rc by (simp add: w T split: if_splits)
  have t: "TruncateLevelText f0 \<and> \<not> PadLevelText f0 \<longrightarrow> length ?T = 4"
    using len by (simp add: T)
  have m: "int (Max (set (map (\<lambda>l. RuneCountInString (Level_String l)) AllLevels))) = 7"
    by (simp only: max_level_width)
  have u: "?U = ToUpper (Level_String (Level entry))"
    by (simp add: upper_name_def)
  have f: "\<exists>bytes entry' separator timestamp levelColor fields.
       Format rt f0 entry = Inr (bytes, ?f, entry') \<and>
       bytes = buffer_contents entry
         @ write_head ?f separator timestamp levelColor ?T (render_caller ?f entry)
             (TrimSuffix (Message entry) [newline])
         @ fields @ [newline]"
    by (intro exI conjI) (rule Format_eq, rule refl)
  show ?thesis
    by (intro conjI r u upper_names w m p t f)
qed

theorem levelText_rendering_witness:
  "cache_ok (sample_formatter\<lparr>PadLevelText := True, TruncateLevelText := True\<rparr>) \<and>
   render_levelText
     (terminalInitOnce_Do (sample_formatter\<lparr>PadLevelText := True, TruncateLevelText := True\<rparr>)
        sample_entry)
     (Level sample_entry) = Inr ''INFO   ''"
proof -
  have c: "cache_ok (sample_formatter\<lparr>PadLevelText := True, TruncateLevelText := True\<rparr>)"
    by (simp add: cache_ok_def sample_formatter_def)
  have u: "upper_name (Level sample_entry) = ''INFO''"
    by (simp add: sample_entry_def upper_name_def ToUpper_def upper_byte_def char_of_def bit_0)
  show ?thesis
    using c levelText_rendering [OF c, of sample_entry sample_runtime, THEN conjunct1]
    by (simp add: u eval_nat_numeral)
qed
subsection \<open>What a call changes\<close>

lemma copy_Data_fold:
  "fold (\<lambda>k data. data(k := m k)) ks d = (\<lambda>k. if k \<in> set ks then m k else d k)"
  by (induction ks arbitrary: d) (auto simp add: fun_eq_iff)

lemma copy_Data_eq:
  assumes "is_range_order (range_Data rt) (Data entry)"
  shows "copy_Data rt entry = Data entry"
proof
  fix k
  show "copy_Data rt entry k = Data entry k"
    using assms by (auto simp add: copy_Data_def copy_Data_fold is_range_order_def)
qed

lemma Format_calls_initialised:
  "terminalInitOnce f \<Longrightarrow> Format_calls f calls = f"
proof (induction calls)
  case Nil
  show ?case by simp
next
  case (Cons c calls)
  obtain rt entry where c: "c = (rt, entry)" by (cases c)
  from Cons.prems have "terminalInitOnce_Do f entry = f"
    by (simp add: terminalInitOnce_Do_def)
  with Cons show ?case
    by (simp add: c Format_eq)
qed

text \<open>
  C10. When the entry of the first call of Format (the Once has not run, the cache
  holds its zero values) has no logger, the call succeeds, the probe of the terminal
  is skipped and isTerminal stays false; no later call changes the formatter, so
  that for its whole life isColored is ForceColors and not DisableColors, whatever
  the platform and the loggers of later entries.
\<close>

theorem first_call_without_logger:
  assumes "\<not> terminalInitOnce f0" and "cache_ok f0" and "Logger entry = None"
  shows "\<exists>bytes f entry'.
    Format rt f0 entry = Inr (bytes, f, entry') \<and>
    terminalInitOnce f \<and> \<not> isTerminal f \<and>
    (\<forall>calls. Format_calls f calls = f) \<and>
    (\<forall>calls. \<not> isTerminal (Format_calls f calls)) \<and>
    (\<forall>rt' calls. isColored rt' (Format_calls f calls) = (ForceColors f0 \<and> \<not> DisableColors f0))"
proof -
  let ?f = "terminalInitOnce_Do f0 entry"
  have t: "terminalInitOnce ?f"
    by (simp add: terminalInitOnce_Do_config)
  have i: "\<not> isTerminal ?f"
    using assms by (simp add: terminalInitOnce_Do_eq cache_ok_def)
  have c: "Format_calls ?f calls = ?f" for calls
    using t by (rule Format_calls_initialised)
  have col: "isColored rt' ?f = (ForceColors f0 \<and> \<not> DisableColors f0)" for rt'
    using i by (simp add: isColored_def terminalInitOnce_Do_config)
  have "\<exists>bytes entry'. Format rt f0 entry = Inr (bytes, ?f, entry')"
    by (simp add: Format_eq)
  then show ?thesis
    using t i c col by auto
qed

theorem first_call_without_logger_witness:
  "\<not> terminalInitOnce sample_formatter \<and> cache_ok sample_formatter \<and>
   Logger sample_entry = None \<and>
   (\<exists>bytes f entry'.
      Format sample_runtime sample_formatter sample_entry = Inr (bytes, f, entry') \<and>
      terminalInitOnce f \<and> \<not> isTerminal f \<and>
      \<not> isTerminal (Format_calls f
          [(sample_runtime, sample_entry\<lparr>Logger := Some sample_logger\<rparr>)]))"
proof -
  have a: "\<not> terminalInitOnce sample_formatter" "cache_ok sample_formatter"
    by (simp_all add: sample_formatter_def cache_ok_def)
  have b: "Logger sample_entry = None"
    by (simp add: sample_entry_def)
  show ?thesis
    using a b first_call_without_logger [OF a b, of sample_runtime] by blast
qed
lemma Format_line:
  "\<exists>entry'.
     Format rt f0 entry =
       Inr (buffer_contents entry
              @ (if DisableTimestamp f0 then []
                 else (if isColored rt (terminalInitOnce_Do f0 entry)
                       then colorPrint (timestamp_text f0 entry) faint
                       else timestamp_text f0 entry)
                      @ separator_for rt (terminalInitOnce_Do f0 entry))
              @ colorPrint
                  (levelText_of (terminalInitOnce_Do f0 entry) (Level entry)
                     @ render_caller f0 entry)
                  (levelColor_for rt (terminalInitOnce_Do f0 entry) entry)
              @ separator_for rt (terminalInitOnce_Do f0 entry)
              @ pad_right 44 (TrimSuffix (Message entry) [newline]) @ '' ''
              @ fields_text rt (terminalInitOnce_Do f0 entry) (copy_Data rt entry)
                  (levelColor_for rt (terminalInitOnce_Do f0 entry) entry) (sorted_keys rt f0)
              @ [newline],
            terminalInitOnce_Do f0 entry, entry')"
proof -
  have c: "render_caller (terminalInitOnce_Do f0 entry) entry = render_caller f0 entry"
    by (simp add: render_caller_def terminalInitOnce_Do_config split: bool.split option.split)
  have t: "timestamp_text (terminalInitOnce_Do f0 entry) entry = timestamp_text f0 entry"
    by (simp add: timestamp_text_def terminalInitOnce_Do_config)
  show ?thesis
    unfolding Format_eq write_head_def c t
    by (simp add: terminalInitOnce_Do_config)
qed

lemma bytes_of_Format:
  "bytes_of (Format rt f0 entry) =
     buffer_contents entry
       @ (if DisableTimestamp f0 then []
          else (if isColored rt (terminalInitOnce_Do f0 entry)
                then colorPrint (timestamp_text f0 entry) faint
                else timestamp_text f0 entry)
               @ separator_for rt (terminalInitOnce_Do f0 entry))
       @ colorPrint
           (levelText_of (terminalInitOnce_Do f0 entry) (Level entry) @ render_caller f0 entry)
           (levelColor_for rt (terminalInitOnce_Do f0 entry) entry)
       @ separator_for rt (terminalInitOnce_Do f0 entry)
       @ pad_right 44 (TrimSuffix (Message entry) [newline]) @ '' ''
       @ fields_text rt (terminalInitOnce_Do f0 entry) (copy_Data rt entry)
           (levelColor_for rt (terminalInitOnce_Do f0 entry) entry) (sorted_keys rt f0)
       @ [newline]"
  using Format_line [of rt f0 entry] by (auto simp add: bytes_of_def)

lemma entry_of_Format:
  "entry_of entry0 (Format rt f0 entry) =
     entry\<lparr>Message := TrimSuffix (Message entry) [newline],
           Buffer := map_option (\<lambda>_. bytes_of (Format rt f0 entry)) (Buffer entry)\<rparr>"
  by (simp add: entry_of_def bytes_of_def Format_eq)

lemma formatter_of_Format:
  "formatter_of f (Format rt f0 entry) = terminalInitOnce_Do f0 entry"
  by (simp add: formatter_of_def Format_eq)

lemma Format_results:
  "Format rt f0 entry =
     Inr (bytes_of (Format rt f0 entry), terminalInitOnce_Do f0 entry,
          entry\<lparr>Message := TrimSuffix (Message entry) [newline],
                Buffer := map_option (\<lambda>_. bytes_of (Format rt f0 entry)) (Buffer entry)\<rparr>)"
  by (simp add: bytes_of_def Format_eq)

text \<open>
  C2, as the code has it. A call of Format leaves the logger, the fields, the time,
  the level and the caller of the entry as they were, and the copy \<^verbatim>\<open>data\<close> it reads
  the fields from equals \<^verbatim>\<open>entry.Data\<close>. It does write to the entry: line 182 replaces the
  message by the message without one trailing newline, and the line is appended to
  the buffer of the entry when it has one. Of the formatter only the Once and the two
  cached fields can change, and nothing changes once the Once has run.
\<close>

theorem Format_frame:
  "\<exists>bytes f entry'.
     Format rt f0 entry = Inr (bytes, f, entry') \<and>
     Logger entry' = Logger entry \<and> Data entry' = Data entry \<and> Time entry' = Time entry \<and>
     Level entry' = Level entry \<and> Caller entry' = Caller entry \<and>
     Message entry' = TrimSuffix (Message entry) [newline] \<and>
     Buffer entry' = map_option (\<lambda>contents. bytes) (Buffer entry) \<and>
     (\<exists>line. bytes = buffer_contents entry @ line) \<and>
     (is_range_order (range_Data rt) (Data entry) \<longrightarrow> copy_Data rt entry = Data entry) \<and>
     f = f0\<lparr>terminalInitOnce := True, isTerminal := isTerminal f,
             levelTextMaxLength := levelTextMaxLength f\<rparr> \<and>
     (terminalInitOnce f0 \<longrightarrow> f = f0)"
proof -
  let ?f = "terminalInitOnce_Do f0 entry"
  let ?b = "bytes_of (Format rt f0 entry)"
  let ?e = "entry\<lparr>Message := TrimSuffix (Message entry) [newline],
                   Buffer := map_option (\<lambda>_. ?b) (Buffer entry)\<rparr>"
  have 1: "Format rt f0 entry = Inr (?b, ?f, ?e)"
    by (rule Format_results)
  have 2: "\<exists>line. ?b = buffer_contents entry @ line"
    unfolding bytes_of_Format by (rule exI) (rule refl)
  have 3: "is_range_order (range_Data rt) (Data entry) \<longrightarrow> copy_Data rt entry = Data entry"
    by (simp add: copy_Data_eq)
  have 4: "?f = f0\<lparr>terminalInitOnce := True, isTerminal := isTerminal ?f,
                     levelTextMaxLength := levelTextMaxLength ?f\<rparr>"
    by (simp add: terminalInitOnce_Do_eq)
  have 5: "terminalInitOnce f0 \<longrightarrow> ?f = f0"
    by (simp add: terminalInitOnce_Do_eq)
  have 6: "Logger ?e = Logger entry" "Data ?e = Data entry" "Time ?e = Time entry"
    "Level ?e = Level entry" "Caller ?e = Caller entry"
    "Message ?e = TrimSuffix (Message entry) [newline]"
    "Buffer ?e = map_option (\<lambda>contents. ?b) (Buffer entry)"
    by simp_all
  show ?thesis
    by (intro exI [of _ ?b] exI [of _ ?f] exI [of _ ?e] conjI 1 2 3 4 5 6)
qed

theorem Format_frame_witness:
  "is_range_order (range_Data sample_runtime) (Data sample_entry) \<and>
   terminalInitOnce (sample_formatter\<lparr>terminalInitOnce := True\<rparr>) \<and>
   (\<exists>bytes entry'.
      Format sample_runtime (sample_formatter\<lparr>terminalInitOnce := True\<rparr>) sample_entry
        = Inr (bytes, sample_formatter\<lparr>terminalInitOnce := True\<rparr>, entry') \<and>
      Data entry' = Data sample_entry \<and> Message entry' = ''hello'' \<and>
      copy_Data sample_runtime sample_entry = Data sample_entry)"
proof -
  have a: "is_range_order (range_Data sample_runtime) (Data sample_entry)"
    by (auto simp add: is_range_order_def sample_runtime_def sample_entry_def)
  have b: "terminalInitOnce (sample_formatter\<lparr>terminalInitOnce := True\<rparr>)"
    by simp
  have c: "TrimSuffix (Message sample_entry) [newline] = ''hello''"
    by (simp add: TrimSuffix_def sample_entry_def newline_def)
  show ?thesis
    using a b c
      Format_frame [of sample_runtime "sample_formatter\<lparr>terminalInitOnce := True\<rparr>" sample_entry]
    by auto
qed

theorem Format_changes_message:
  "Message (entry_of (sample_entry\<lparr>Message := ''hello'' @ [newline]\<rparr>)
      (Format sample_runtime sample_formatter (sample_entry\<lparr>Message := ''hello'' @ [newline]\<rparr>)))
     = ''hello'' \<and>
   Message (entry_of (sample_entry\<lparr>Message := ''hello'' @ [newline]\<rparr>)
      (Format sample_runtime sample_formatter (sample_entry\<lparr>Message := ''hello'' @ [newline]\<rparr>)))
     \<noteq> Message (sample_entry\<lparr>Message := ''hello'' @ [newline]\<rparr>)"
  by (simp add: entry_of_Format TrimSuffix_def)
subsection \<open>Quoting of values\<close>

lemma needsQuoting_loop_iff:
  "needsQuoting_loop rs = (\<exists>ch\<in>set rs. \<not> safe_rune ch)"
  by (induction rs) auto

lemma safe_rune_below: "safe_rune ch \<Longrightarrow> ch < 128"
  by (auto simp add: safe_rune_def)

lemma mod_window:
  fixes a b n :: nat
  assumes "a * b \<le> n" and "n < a * b + b"
  shows "n mod b = n - a * b"
proof -
  have "n = a * b + (n - a * b)" using assms by simp
  then have "n mod b = (a * b + (n - a * b)) mod b" by simp
  also have "\<dots> = (n - a * b) mod b" by simp
  also have "\<dots> = n - a * b" using assms by simp
  finally show ?thesis .
qed

lemma DecodeRuneInString_high:
  assumes "128 \<le> (of_char c :: nat)"
  shows "128 \<le> fst (DecodeRuneInString (c # s))"
proof -
  define s0 :: nat where "s0 = of_char c"
  define t :: "nat list" where "t = map of_char s"
  have dec: "DecodeRuneInString (c # s) =
     (if s0 < RuneSelf then (s0, 1)
      else if first_size s0 = 0 then (RuneError, 1)
      else if length (c # s) < first_size s0 then (RuneError, 1)
      else if t ! 0 < accept_lo s0 \<or> accept_hi s0 < t ! 0 then (RuneError, 1)
      else if first_size s0 \<le> 2 then ((s0 mod 32) * 64 + t ! 0 mod 64, 2)
      else if t ! 1 < 0x80 \<or> 0xBF < t ! 1 then (RuneError, 1)
      else if first_size s0 \<le> 3
        then ((s0 mod 16) * 4096 + (t ! 0 mod 64) * 64 + t ! 1 mod 64, 3)
      else if t ! 2 < 0x80 \<or> 0xBF < t ! 2 then (RuneError, 1)
      else ((s0 mod 8) * 262144 + (t ! 0 mod 64) * 4096 + (t ! 1 mod 64) * 64
              + t ! 2 mod 64, 4))"
    by (simp only: DecodeRuneInString_def list.map list.case s0_def t_def)
  have s0: "128 \<le> s0" using assms by (simp add: s0_def)
  have hi: "128 \<le> fst (if P then (RuneError, 1 :: nat) else x)" if "128 \<le> fst x" for P x
    using that by (simp add: RuneError_def)
  consider (a) "s0 < 0xC2 \<or> 0xF4 < s0" | (b) "0xC2 \<le> s0" "s0 \<le> 0xDF"
    | (c) "s0 = 0xE0" | (c') "0xE1 \<le> s0" "s0 \<le> 0xEF"
    | (d) "s0 = 0xF0" | (d') "0xF1 \<le> s0" "s0 \<le> 0xF4"
    by linarith
  then show ?thesis
  proof cases
    case a
    then have "first_size s0 = 0" by (auto simp add: first_size_def)
    then show ?thesis using s0 by (simp add: dec RuneSelf_def RuneError_def)
  next
    case b
    then have f: "first_size s0 = 2" by (simp add: first_size_def)
    have "s0 mod 32 = s0 - 6 * 32" using b by (intro mod_window) simp_all
    then have "2 \<le> s0 mod 32" using b by simp
    then have "128 \<le> s0 mod 32 * 64 + t ! 0 mod 64" by simp
    then show ?thesis using s0 by (simp add: dec f RuneSelf_def RuneError_def)
  next
    case c
    then have f: "first_size s0 = 3" by (simp add: first_size_def)
    have k: "128 \<le> t ! 0 mod 64 * 64 + x" if "\<not> t ! 0 < 160" "\<not> 191 < t ! 0" for x
    proof -
      have "t ! 0 mod 64 = t ! 0 - 2 * 64" using that by (intro mod_window) simp_all
      then have "32 \<le> t ! 0 mod 64" using that by simp
      then show ?thesis by simp
    qed
    have lo: "accept_lo s0 = 160" "accept_hi s0 = 191" "s0 mod 16 = 0"
      using c by (simp_all add: accept_lo_def accept_hi_def)
    show ?thesis using s0 k by (simp add: dec f lo RuneSelf_def RuneError_def)
  next
    case c'
    then have f: "first_size s0 = 3" by (simp add: first_size_def)
    have "s0 mod 16 = s0 - 14 * 16" using c' by (intro mod_window) simp_all
    then have "1 \<le> s0 mod 16" using c' by simp
    then have "128 \<le> s0 mod 16 * 4096 + x" for x by simp
    then show ?thesis using s0 by (simp add: dec f RuneSelf_def RuneError_def add.assoc)
  next
    case d
    then have f: "first_size s0 = 4" by (simp add: first_size_def)
    have k: "128 \<le> t ! 0 mod 64 * 4096 + x" if "\<not> t ! 0 < 144" "\<not> 191 < t ! 0" for x
    proof -
      have "t ! 0 mod 64 = t ! 0 - 2 * 64" using that by (intro mod_window) simp_all
      then have "16 \<le> t ! 0 mod 64" using that by simp
      then show ?thesis by simp
    qed
    have lo: "accept_lo s0 = 144" "accept_hi s0 = 191" "s0 mod 8 = 0"
      using d by (simp_all add: accept_lo_def accept_hi_def)
    show ?thesis using s0 k
      by (simp add: dec f lo RuneSelf_def RuneError_def add.assoc)
  next
    case d'
    then have f: "first_size s0 = 4" by (simp add: first_size_def)
    have "s0 mod 8 = s0 - 30 * 8" using d' by (intro mod_window) simp_all
    then have "1 \<le> s0 mod 8" using d' by simp
    then have "128 \<le> s0 mod 8 * 262144 + x" for x by simp
    then show ?thesis using s0 by (simp add: dec f RuneSelf_def RuneError_def add.assoc)
  qed
qed
lemma unsafe_rune_iff_unsafe_byte:
  "(\<exists>ch\<in>set (runes s). \<not> safe_rune ch) = (\<exists>c\<in>set s. \<not> safe_rune (of_char c))"
proof (induction s rule: runes.induct)
  case (1 s)
  show ?case
  proof (cases s)
    case Nil
    then show ?thesis by (simp add: runes.simps [of "[]"])
  next
    case (Cons c t)
    show ?thesis
    proof (cases "(of_char c :: nat) < 128")
      case True
      then have d: "DecodeRuneInString (c # t) = (of_char c, 1)"
        by (rule DecodeRuneInString_ascii)
      have "(\<exists>ch\<in>set (runes t). \<not> safe_rune ch) = (\<exists>c\<in>set t. \<not> safe_rune (of_char c))"
        using "1.IH" by (simp add: Cons d)
      then show ?thesis
        by (simp add: Cons runes.simps [of "c # t"] d)
    next
      case False
      then have "128 \<le> fst (DecodeRuneInString (c # t))"
        by (intro DecodeRuneInString_high) simp
      then have "\<not> safe_rune (fst (DecodeRuneInString (c # t)))"
        using safe_rune_below by fastforce
      moreover have "\<not> safe_rune (of_char c)"
        using False safe_rune_below by blast
      ultimately show ?thesis
        by (simp add: Cons runes.simps [of "c # t"])
    qed
  qed
qed

lemma safe_rune_set:
  "safe_rune ch =
     (ch \<in> of_char `
        set ''abcdefghijklmnopqrstuvwxyzABCDEFGHIJKLMNOPQRSTUVWXYZ0123456789-._/@^+'')"
  unfolding safe_rune_def by (simp del: of_char_eq_iff) arith

text \<open>
  C3. A field value is turned into text, a string as it is and any other value as
  fmt.Sprint prints it. The text is written quoted (by \<^verbatim>\<open>%q\<close>: between double quotes,
  with escapes) exactly when ForceQuote is set, or DisableQuote is not set and the
  text holds a rune outside a-z, A-Z, 0-9 and the seven marks; otherwise it is written
  as it is. In particular, with DisableQuote and without ForceQuote it is never quoted.
  A rune outside the set is there exactly when a byte outside the set is.
\<close>

theorem appendValue_quoting:
  "appendValue rt f b v =
     b @ (if ForceQuote f \<or> (\<not> DisableQuote f \<and> (\<exists>ch\<in>set (runes (Sprint v)). \<not> safe_rune ch))
          then Quote rt (Sprint v) else Sprint v) \<and>
   Sprint (VString s) = s \<and>
   (ForceQuote f \<longrightarrow> appendValue rt f b v = b @ Quote rt (Sprint v)) \<and>
   (DisableQuote f \<and> \<not> ForceQuote f \<longrightarrow> appendValue rt f b v = b @ Sprint v) \<and>
   (\<forall>ch. safe_rune ch =
      (ch \<in> of_char `
         set ''abcdefghijklmnopqrstuvwxyzABCDEFGHIJKLMNOPQRSTUVWXYZ0123456789-._/@^+'')) \<and>
   (\<exists>ch\<in>set (runes (Sprint v)). \<not> safe_rune ch)
      = (\<exists>c\<in>set (Sprint v). \<not> safe_rune (of_char c)) \<and>
   (\<exists>body. Quote rt (Sprint v) = [dquote] @ body @ [dquote])"
proof -
  have sv: "(case v of VString s \<Rightarrow> s | _ \<Rightarrow> Sprint v) = Sprint v"
    by (cases v) simp_all
  have 1: "appendValue rt f b v =
     b @ (if ForceQuote f \<or> (\<not> DisableQuote f \<and> (\<exists>ch\<in>set (runes (Sprint v)). \<not> safe_rune ch))
          then Quote rt (Sprint v) else Sprint v)"
    by (simp add: appendValue_def sv needsQuoting_def needsQuoting_loop_iff Let_def)
  have 2: "\<exists>body. Quote rt (Sprint v) = [dquote] @ body @ [dquote]"
    by (simp add: Quote_def)
  show ?thesis
    using 1 2 safe_rune_set unsafe_rune_iff_unsafe_byte [of "Sprint v"] by simp
qed

theorem appendValue_quoting_witness:
  "ForceQuote (sample_formatter\<lparr>ForceQuote := True\<rparr>) \<and>
   (DisableQuote (sample_formatter\<lparr>DisableQuote := True\<rparr>) \<and>
    \<not> ForceQuote (sample_formatter\<lparr>DisableQuote := True\<rparr>)) \<and>
   appendValue sample_runtime (sample_formatter\<lparr>ForceQuote := True\<rparr>) ''k='' (VString ''v'')
     = ''k='' @ Quote sample_runtime ''v'' \<and>
   appendValue sample_runtime (sample_formatter\<lparr>DisableQuote := True\<rparr>) ''k='' (VString ''a b'')
     = ''k=a b'' \<and>
   appendValue sample_runtime sample_formatter ''k='' (VString ''a b'')
     = ''k='' @ Quote sample_runtime ''a b'' \<and>
   appendValue sample_runtime sample_formatter ''k='' (VBool True) = ''k=true''"
proof -
  have f: "\<not> ForceQuote sample_formatter" "\<not> DisableQuote sample_formatter"
    by (simp_all add: sample_formatter_def)
  have u: "\<exists>c\<in>set ''a b''. \<not> safe_rune (of_char c)"
    by (simp add: safe_rune_def)
  have s: "\<not> (\<exists>c\<in>set ''true''. \<not> safe_rune (of_char c))"
    by (simp add: safe_rune_def)
  have r: "(\<exists>ch\<in>set (runes t). \<not> safe_rune ch) = (\<exists>c\<in>set t. \<not> safe_rune (of_char c))"
    for t by (rule unsafe_rune_iff_unsafe_byte)
  note a1 = appendValue_quoting [of sample_runtime "sample_formatter\<lparr>ForceQuote := True\<rparr>"
        "''k=''" "VString ''v''" "''v''", THEN conjunct1]
  note a2 = appendValue_quoting [of sample_runtime "sample_formatter\<lparr>DisableQuote := True\<rparr>"
        "''k=''" "VString ''a b''" "''v''", THEN conjunct1]
  note a3 = appendValue_quoting [of sample_runtime sample_formatter "''k=''" "VString ''a b''"
        "''v''", THEN conjunct1]
  note a4 = appendValue_quoting [of sample_runtime sample_formatter "''k=''" "VBool True"
        "''v''", THEN conjunct1]
  show ?thesis
    using f u s by (simp add: a1 a2 a3 a4 r)
qed
subsection \<open>Plain ASCII text: padding and quoting\<close>

lemma pad_right_ascii:
  "\<forall>c\<in>set s. (of_char c :: nat) < 128 \<Longrightarrow>
     pad_right w s = s @ replicate (w - length s) CHR '' ''"
  by (simp add: pad_right_def RuneCountInString_ascii)

lemma appendEscapedRune_plain:
  assumes "0x20 \<le> (of_char c :: nat)" and "(of_char c :: nat) < 0x7F"
    and "c \<noteq> dquote" and "c \<noteq> backslash"
  shows "appendEscapedRune rt (of_char c) = [c]"
  using assms by (simp add: appendEscapedRune_def IsPrint_def EncodeRune_def)

lemma quote_body_plain:
  assumes "\<forall>c\<in>set s. 0x20 \<le> (of_char c :: nat) \<and> (of_char c :: nat) < 0x7F
             \<and> c \<noteq> dquote \<and> c \<noteq> backslash"
  shows "quote_body rt s = s"
  using assms
proof (induction s)
  case Nil
  show ?case by (simp add: quote_body.simps [of rt "[]"])
next
  case (Cons c s)
  then have d: "DecodeRuneInString (c # s) = (of_char c, 1)"
    by (intro DecodeRuneInString_ascii) simp
  have "of_char c \<noteq> RuneError"
    using Cons.prems by (simp add: RuneError_def)
  with Cons show ?case
    by (simp add: quote_body.simps [of rt "c # s"] d appendEscapedRune_plain)
qed

lemma Quote_plain:
  assumes "\<forall>c\<in>set s. 0x20 \<le> (of_char c :: nat) \<and> (of_char c :: nat) < 0x7F
             \<and> c \<noteq> dquote \<and> c \<noteq> backslash"
  shows "Quote rt s = dquote # s @ [dquote]"
  by (simp add: Quote_def quote_body_plain [OF assms])

lemma colorPrint_off: "colorPrint text (- 1) = text"
  by (simp add: colorPrint_def)

lemma sort_two_keys:
  assumes "distinct ks" and "set ks = {''a'', ''b''}"
  shows "sort ks = [''a'', ''b'']"
proof -
  have "sorted [''a'', ''b'']" by simp
  moreover have "distinct [''a'', ''b'']" by simp
  moreover have "sorted (sort ks)" "distinct (sort ks)" using assms by simp_all
  moreover have "set (sort ks) = set [''a'', ''b'']" using assms by auto
  ultimately show ?thesis by (intro sorted_distinct_set_unique)
qed
subsection \<open>The scenario of the two fields\<close>

lemma hello_fields:
  assumes f: "\<not> ForceQuote f" "\<not> DisableQuote f"
  shows "fields_text rt f [''a'' \<mapsto> VString ''1'', ''b'' \<mapsto> VString ''needs space''] (- 1)
           [''a'', ''b'']
         = '' a=1 b='' @ [dquote] @ ''needs space'' @ [dquote]"
proof -
  have n1: "\<not> needsQuoting f ''1''"
    unfolding needsQuoting_def needsQuoting_loop_iff unsafe_rune_iff_unsafe_byte
    using f by (simp add: safe_rune_def)
  have n2: "needsQuoting f ''needs space''"
    unfolding needsQuoting_def needsQuoting_loop_iff unsafe_rune_iff_unsafe_byte
    using f by (simp add: safe_rune_def)
  have q: "Quote rt ''needs space'' = dquote # ''needs space'' @ [dquote]"
    by (intro Quote_plain) (simp add: dquote_def backslash_def)
  show ?thesis
    by (simp add: fields_text_def write_field_def appendValue_def colorPrint_off n1 n2 q)
qed

lemma hello_line:
  assumes r: "is_range_order (range_Data rt) (Data entry)"
      "is_range_order (range_data rt) (copy_Data rt entry)"
    and c: "DisableTimestamp f0" "DisableColors f0" "\<not> ForceQuote f0" "\<not> DisableQuote f0"
      "\<not> TruncateLevelText f0" "\<not> PadLevelText f0" "\<not> DisableSorting f0"
      "SortingFunc f0 = None"
    and e: "Level entry = InfoLevel" "Message entry = ''hello''"
      "Data entry = [''a'' \<mapsto> VString ''1'', ''b'' \<mapsto> VString ''needs space'']"
      "Buffer entry = None"
  shows "bytes_of (Format rt f0 entry) =
     ''INFO'' @ render_caller f0 entry @ '' :: hello'' @ replicate 41 CHR '' ''
       @ ''a=1 b='' @ [dquote] @ ''needs space'' @ [dquote, newline]"
proof -
  let ?f = "terminalInitOnce_Do f0 entry"
  have d: "copy_Data rt entry = [''a'' \<mapsto> VString ''1'', ''b'' \<mapsto> VString ''needs space'']"
    using copy_Data_eq [OF r(1)] e(3) by simp
  have "distinct (range_data rt)" "set (range_data rt) = {''a'', ''b''}"
    using r(2) by (auto simp add: is_range_order_def d)
  then have "sort (range_data rt) = [''a'', ''b'']"
    by (rule sort_two_keys)
  then have k: "sorted_keys rt f0 = [''a'', ''b'']"
    using c by (simp add: sorted_keys_def)
  have col: "\<not> isColored rt ?f"
    using c by (simp add: isColored_def terminalInitOnce_Do_config)
  have lt: "levelText_of ?f (Level entry) = ''INFO''"
    using c e by (simp add: levelText_of_eq terminalInitOnce_Do_config upper_name_def
        ToUpper_def upper_byte_def char_of_def bit_0)
  have m: "pad_right 44 (TrimSuffix (Message entry) [newline]) = ''hello'' @ replicate 39 CHR '' ''"
    using e by (simp add: TrimSuffix_def newline_def pad_right_ascii)
  have fl: "fields_text rt ?f (copy_Data rt entry) (- 1) (sorted_keys rt f0)
           = '' a=1 b='' @ [dquote] @ ''needs space'' @ [dquote]"
    unfolding d k using c by (intro hello_fields) (simp_all add: terminalInitOnce_Do_config)
  have b: "buffer_contents entry = []"
    using e by (simp add: buffer_contents_def)
  have "replicate (39 + 2) CHR '' '' = replicate 39 CHR '' '' @ replicate 2 CHR '' ''"
    by (rule replicate_add)
  then have r41: "replicate 41 CHR '' '' = replicate 39 CHR '' '' @ ''  ''"
    by (simp add: numeral_2_eq_2)
  show ?thesis
    unfolding bytes_of_Format
    using c by (simp add: b col lt m fl levelColor_for_def separator_for_def colorPrint_off r41)
qed

lemma sample_orders:
  "is_range_order (range_Data sample_runtime) (Data sample_entry)"
  "is_range_order (range_data sample_runtime) (copy_Data sample_runtime sample_entry)"
proof -
  show 1: "is_range_order (range_Data sample_runtime) (Data sample_entry)"
    by (auto simp add: is_range_order_def sample_runtime_def sample_entry_def)
  show "is_range_order (range_data sample_runtime) (copy_Data sample_runtime sample_entry)"
    unfolding copy_Data_eq [OF 1]
    by (auto simp add: is_range_order_def sample_runtime_def sample_entry_def)
qed

lemma no_caller: "Caller entry = None \<Longrightarrow> render_caller f entry = []"
  by (simp add: render_caller_def split: bool.split)

lemma sample_line:
  "bytes_of (Format sample_runtime sample_formatter sample_entry) =
     ''INFO :: hello'' @ replicate 41 CHR '' '' @ ''a=1 b='' @ [dquote] @ ''needs space''
       @ [dquote, newline]"
proof -
  have "render_caller sample_formatter sample_entry = []"
    by (rule no_caller) (simp add: sample_entry_def)
  then show ?thesis
    using hello_line [OF sample_orders, of sample_formatter]
    by (simp add: sample_formatter_def sample_entry_def)
qed

text \<open>
  C6, as the code has it. For the record with level Info, message "hello" and the two
  fields a = "1" and b = "needs space", without caller and buffer, and timestamps and
  colours disabled (quoting, truncation, padding and sorting as by default), Format
  returns \<^verbatim>\<open>INFO :: hello\<close>, then 41 spaces, then \<^verbatim>\<open>a=1 b="needs space"\<close> and one newline,
  whatever order the runtime ranges over the map in. The 41 spaces are the 39 that pad
  the message to 44 runes, the space that ends the template and the space in front of
  the first field.
\<close>

theorem Format_hello_scenario:
  assumes "is_range_order (range_Data rt) (Data entry)"
      "is_range_order (range_data rt) (copy_Data rt entry)"
    and "DisableTimestamp f0" "DisableColors f0" "\<not> ForceQuote f0" "\<not> DisableQuote f0"
      "\<not> TruncateLevelText f0" "\<not> PadLevelText f0" "\<not> DisableSorting f0"
      "SortingFunc f0 = None"
    and "Level entry = InfoLevel" "Message entry = ''hello''"
      "Data entry = [''a'' \<mapsto> VString ''1'', ''b'' \<mapsto> VString ''needs space'']"
      "Caller entry = None" "Buffer entry = None"
  shows "\<exists>f entry'. Format rt f0 entry =
     Inr (''INFO :: hello'' @ replicate 41 CHR '' '' @ ''a=1 b='' @ [dquote] @ ''needs space''
            @ [dquote, newline], f, entry')"
proof -
  have "bytes_of (Format rt f0 entry) =
     ''INFO :: hello'' @ replicate 41 CHR '' '' @ ''a=1 b='' @ [dquote] @ ''needs space''
       @ [dquote, newline]"
    using hello_line [OF assms(1-13) assms(15)] no_caller [OF assms(14), of f0] by simp
  then show ?thesis
    using Format_results [of rt f0 entry] by auto
qed

theorem Format_hello_scenario_witness:
  "is_range_order (range_Data sample_runtime) (Data sample_entry) \<and>
   is_range_order (range_data sample_runtime) (copy_Data sample_runtime sample_entry) \<and>
   DisableTimestamp sample_formatter \<and> DisableColors sample_formatter \<and>
   \<not> ForceQuote sample_formatter \<and> \<not> DisableQuote sample_formatter \<and>
   \<not> TruncateLevelText sample_formatter \<and> \<not> PadLevelText sample_formatter \<and>
   \<not> DisableSorting sample_formatter \<and> SortingFunc sample_formatter = None \<and>
   Level sample_entry = InfoLevel \<and> Message sample_entry = ''hello'' \<and>
   Data sample_entry = [''a'' \<mapsto> VString ''1'', ''b'' \<mapsto> VString ''needs space''] \<and>
   Caller sample_entry = None \<and> Buffer sample_entry = None \<and>
   (\<exists>f entry'. Format sample_runtime sample_formatter sample_entry =
     Inr (''INFO :: hello'' @ replicate 41 CHR '' '' @ ''a=1 b='' @ [dquote] @ ''needs space''
            @ [dquote, newline], f, entry'))"
proof -
  have c: "DisableTimestamp sample_formatter" "DisableColors sample_formatter"
    "\<not> ForceQuote sample_formatter" "\<not> DisableQuote sample_formatter"
    "\<not> TruncateLevelText sample_formatter" "\<not> PadLevelText sample_formatter"
    "\<not> DisableSorting sample_formatter" "SortingFunc sample_formatter = None"
    by (simp_all add: sample_formatter_def)
  have e: "Level sample_entry = InfoLevel" "Message sample_entry = ''hello''"
    "Data sample_entry = [''a'' \<mapsto> VString ''1'', ''b'' \<mapsto> VString ''needs space'']"
    "Caller sample_entry = None" "Buffer sample_entry = None"
    by (simp_all add: sample_entry_def)
  show ?thesis
    by (intro conjI sample_orders c e Format_hello_scenario [OF sample_orders c e])
qed

theorem Format_hello_not_39_spaces:
  "bytes_of (Format sample_runtime sample_formatter sample_entry) \<noteq>
     ''INFO :: hello'' @ replicate 39 CHR '' '' @ ''a=1 b='' @ [dquote] @ ''needs space''
       @ [dquote, newline]"
proof -
  have "length (bytes_of (Format sample_runtime sample_formatter sample_entry)) = 74"
    by (simp add: sample_line)
  moreover have "length (''INFO :: hello'' @ replicate 39 CHR '' '' @ ''a=1 b='' @ [dquote]
      @ ''needs space'' @ [dquote, newline]) = 72"
    by simp
  ultimately show ?thesis by auto
qed
subsection \<open>The caller annotation\<close>

lemma render_caller_eq:
  "render_caller f entry =
     (if HasCaller entry then
        (case Caller entry of
           None \<Rightarrow> []
         | Some c \<Rightarrow>
             (case CallerPrettyfier f of
                None \<Rightarrow> '' ('' @ combine_caller (Function c @ '':'' @ Itoa (Line c)) [] @ '')''
              | Some g \<Rightarrow> '' ('' @ combine_caller (fst (g c)) (snd (g c)) @ '')''))
      else [])"
  by (simp add: render_caller_def combine_caller_def Let_def
      split: bool.split option.split prod.split)

lemma middle_part: "\<exists>pre post. a @ b @ m @ c = pre @ m @ post"
  by (rule exI [of _ "a @ b"], rule exI [of _ c]) simp

lemma HasCaller_Caller: "HasCaller entry \<Longrightarrow> Caller entry \<noteq> None"
  by (simp add: HasCaller_def split: option.splits)

lemma copy_Data_cong: "Data e1 = Data e2 \<Longrightarrow> copy_Data rt e1 = copy_Data rt e2"
  by (simp add: copy_Data_def)

text \<open>
  C8, as the code has it. When the record carries caller info, the two texts (those
  the custom formatter returns, or the function, a colon and the line, with an empty
  file text) are combined as the specification says, and the combination is always
  written between \<^verbatim>\<open> (\<close> and \<^verbatim>\<open>)\<close> right after the level text, inside the coloured
  section; so the annotation is never empty for such a record, and for an empty
  combination it is \<^verbatim>\<open> ()\<close>. The annotation is empty exactly when the record carries no
  caller info.
\<close>

theorem caller_annotation:
  "(\<forall>c g. HasCaller entry \<and> Caller entry = Some c \<and> CallerPrettyfier f0 = Some g \<longrightarrow>
      render_caller f0 entry = '' ('' @ combine_caller (fst (g c)) (snd (g c)) @ '')'') \<and>
   (\<forall>c. HasCaller entry \<and> Caller entry = Some c \<and> CallerPrettyfier f0 = None \<longrightarrow>
      render_caller f0 entry = '' ('' @ Function c @ '':'' @ Itoa (Line c) @ '')'' \<and>
      combine_caller (Function c @ '':'' @ Itoa (Line c)) [] = Function c @ '':'' @ Itoa (Line c)) \<and>
   (HasCaller entry \<longrightarrow> Caller entry \<noteq> None \<and> render_caller f0 entry \<noteq> []) \<and>
   (\<not> HasCaller entry \<longrightarrow> render_caller f0 entry = []) \<and>
   (\<exists>pre post. bytes_of (Format rt f0 entry) =
      pre @ colorPrint
              (levelText_of (terminalInitOnce_Do f0 entry) (Level entry) @ render_caller f0 entry)
              (levelColor_for rt (terminalInitOnce_Do f0 entry) entry)
          @ post)"
proof -
  have 1: "\<forall>c g. HasCaller entry \<and> Caller entry = Some c \<and> CallerPrettyfier f0 = Some g \<longrightarrow>
      render_caller f0 entry = '' ('' @ combine_caller (fst (g c)) (snd (g c)) @ '')''"
    by (simp add: render_caller_eq)
  have 2: "\<forall>c. HasCaller entry \<and> Caller entry = Some c \<and> CallerPrettyfier f0 = None \<longrightarrow>
      render_caller f0 entry = '' ('' @ Function c @ '':'' @ Itoa (Line c) @ '')'' \<and>
      combine_caller (Function c @ '':'' @ Itoa (Line c)) [] = Function c @ '':'' @ Itoa (Line c)"
    by (simp add: render_caller_eq combine_caller_def)
  have 3: "HasCaller entry \<longrightarrow> Caller entry \<noteq> None \<and> render_caller f0 entry \<noteq> []"
    using HasCaller_Caller [of entry]
    by (auto simp add: render_caller_eq split: option.splits)
  have 4: "\<not> HasCaller entry \<longrightarrow> render_caller f0 entry = []"
    by (simp add: render_caller_eq)
  have 5: "\<exists>pre post. bytes_of (Format rt f0 entry) =
      pre @ colorPrint
              (levelText_of (terminalInitOnce_Do f0 entry) (Level entry) @ render_caller f0 entry)
              (levelColor_for rt (terminalInitOnce_Do f0 entry) entry)
          @ post"
    unfolding bytes_of_Format by (rule middle_part)
  show ?thesis
    by (intro conjI 1 2 3 4 5)
qed

lemma sample_HasCaller:
  "HasCaller (sample_entry\<lparr>Logger := Some sample_logger, Caller := Some sample_frame\<rparr>)"
  by (simp add: HasCaller_def sample_logger_def)

theorem caller_annotation_witness:
  "HasCaller (sample_entry\<lparr>Logger := Some sample_logger, Caller := Some sample_frame\<rparr>) \<and>
   Caller (sample_entry\<lparr>Logger := Some sample_logger, Caller := Some sample_frame\<rparr>)
     = Some sample_frame \<and>
   CallerPrettyfier (sample_formatter\<lparr>CallerPrettyfier := Some (\<lambda>c. (''run'', File c))\<rparr>)
     = Some (\<lambda>c. (''run'', File c)) \<and>
   render_caller (sample_formatter\<lparr>CallerPrettyfier := Some (\<lambda>c. (''run'', File c))\<rparr>)
     (sample_entry\<lparr>Logger := Some sample_logger, Caller := Some sample_frame\<rparr>)
     = '' (main.go run)'' \<and>
   \<not> HasCaller sample_entry \<and>
   render_caller sample_formatter sample_entry = []"
proof -
  let ?e = "sample_entry\<lparr>Logger := Some sample_logger, Caller := Some sample_frame\<rparr>"
  let ?f = "sample_formatter\<lparr>CallerPrettyfier := Some (\<lambda>c. (''run'', File c))\<rparr>"
  have n: "\<not> HasCaller sample_entry"
    by (simp add: HasCaller_def sample_entry_def)
  have c: "Caller ?e = Some sample_frame" "CallerPrettyfier ?f = Some (\<lambda>c. (''run'', File c))"
    by simp_all
  have "render_caller ?f ?e
      = '' ('' @ combine_caller (fst (''run'', File sample_frame)) (snd (''run'', File sample_frame))
          @ '')''"
    using caller_annotation [of ?e ?f sample_runtime] sample_HasCaller c by blast
  then have r: "render_caller ?f ?e = '' (main.go run)''"
    by (simp add: combine_caller_def sample_frame_def)
  have e: "render_caller sample_formatter sample_entry = []"
    using caller_annotation [of sample_entry sample_formatter sample_runtime] n by blast
  show ?thesis
    by (intro conjI sample_HasCaller c r n e)
qed

theorem empty_caller_texts_are_wrapped:
  "render_caller (sample_formatter\<lparr>CallerPrettyfier := Some (\<lambda>c. ([], []))\<rparr>)
     (sample_entry\<lparr>Logger := Some sample_logger, Caller := Some sample_frame\<rparr>) = '' ()'' \<and>
   bytes_of (Format sample_runtime (sample_formatter\<lparr>CallerPrettyfier := Some (\<lambda>c. ([], []))\<rparr>)
     (sample_entry\<lparr>Logger := Some sample_logger, Caller := Some sample_frame\<rparr>))
     = ''INFO () :: hello'' @ replicate 41 CHR '' '' @ ''a=1 b='' @ [dquote] @ ''needs space''
         @ [dquote, newline] \<and>
   bytes_of (Format sample_runtime (sample_formatter\<lparr>CallerPrettyfier := Some (\<lambda>c. ([], []))\<rparr>)
     (sample_entry\<lparr>Logger := Some sample_logger, Caller := None\<rparr>))
     = ''INFO :: hello'' @ replicate 41 CHR '' '' @ ''a=1 b='' @ [dquote] @ ''needs space''
         @ [dquote, newline]"
proof -
  let ?e = "sample_entry\<lparr>Logger := Some sample_logger, Caller := Some sample_frame\<rparr>"
  let ?e' = "sample_entry\<lparr>Logger := Some sample_logger, Caller := None\<rparr>"
  let ?f = "sample_formatter\<lparr>CallerPrettyfier := Some (\<lambda>c. ([], []))\<rparr>"
  have r: "render_caller ?f ?e = '' ()''"
    using sample_HasCaller by (simp add: render_caller_eq combine_caller_def)
  have r': "render_caller ?f ?e' = []"
    by (rule no_caller) simp
  have o: "is_range_order (range_Data sample_runtime) (Data ?e)"
    "is_range_order (range_data sample_runtime) (copy_Data sample_runtime ?e)"
    "is_range_order (range_Data sample_runtime) (Data ?e')"
    "is_range_order (range_data sample_runtime) (copy_Data sample_runtime ?e')"
    using sample_orders
    by (simp_all add: copy_Data_cong [of ?e sample_entry] copy_Data_cong [of ?e' sample_entry])
  have 1: "bytes_of (Format sample_runtime ?f ?e)
     = ''INFO () :: hello'' @ replicate 41 CHR '' '' @ ''a=1 b='' @ [dquote] @ ''needs space''
         @ [dquote, newline]"
    using hello_line [OF o(1,2), of ?f] r
    by (simp add: sample_formatter_def sample_entry_def)
  have 2: "bytes_of (Format sample_runtime ?f ?e')
     = ''INFO :: hello'' @ replicate 41 CHR '' '' @ ''a=1 b='' @ [dquote] @ ''needs space''
         @ [dquote, newline]"
    using hello_line [OF o(3,4), of ?f] r'
    by (simp add: sample_formatter_def sample_entry_def)
  show ?thesis
    by (intro conjI r 1 2)
qed

end
